theory Spec2Isabelle
  imports Complex_Main
begin

section \<open>Black-Scholes pricer and implied-volatility search of \<open>black_scholes.py\<close>\<close>

text \<open>
  The numeric values of the program are Python and numpy floats. They are modelled by the
  real numbers they denote: finite arithmetic is exact, rounding and overflow are not
  modelled, and the real zero stands for the float \<open>0.0\<close>. Where the source leaves the
  reals the model says so with a value of its own instead of using the total functions of
  HOL:
  \<^item> Python's float division \<open>S/K\<close> raises \<open>ZeroDivisionError\<close> when \<open>K\<close> is zero;
  \<^item> numpy's \<open>log\<close>, \<open>sqrt\<close> and division do not raise outside their domain, they give
    \<open>-inf\<close>, \<open>inf\<close> or \<open>nan\<close> (with a warning). Such a computation is the outcome
    \<open>Special\<close> of \<open>BS_CALL\<close> and \<open>BS_PUT\<close>; the float that comes out of it, a number or
    \<open>nan\<close>, is given by \<open>BS_CALL_special\<close> and \<open>BS_PUT_special\<close>, and the search loop
    goes on with it as the source does.
\<close>

subsection \<open>Outcomes\<close>

text \<open>
  \<open>ZeroDivisionError\<close> is the only exception the modelled functions can raise.
  \<open>InvalidParameterError\<close> is the error kind of the specification; no path of the source
  constructs it, it is here so that statements about it can be written.
\<close>

datatype py_error = ZeroDivisionError | InvalidParameterError

datatype 'a outcome = Raises py_error | Special | Returns 'a

subsection \<open>The standard normal distribution function\<close>

text \<open>
  Modelled from the spec: \<open>scipy.stats.norm.cdf\<close>, which the source imports and calls as
  \<open>N\<close>; it is a library function and not part of the source. The specification calls it
  the standard normal cumulative distribution function,
  \<open>Phi x = 1/2 + (1 / sqrt (2 pi)) * integral from 0 to x of exp (- t^2 / 2)\<close>.
  \<open>gauss_area x\<close> is that integral, given by its Maclaurin series, which converges for
  every \<open>x\<close>: \<open>sum over k of (-1/2)^k * x^(2k+1) / (k! * (2k+1))\<close>; \<open>gauss_coeff n\<close> is
  the coefficient of \<open>x^n\<close>.
\<close>

definition gauss_coeff :: "nat \<Rightarrow> real" where
  "gauss_coeff n =
     (if even n then 0
      else (- 1 / 2) ^ ((n - 1) div 2) / (fact ((n - 1) div 2) * real n))"

definition gauss_area :: "real \<Rightarrow> real" where
  "gauss_area x = (\<Sum>n. gauss_coeff n * x ^ n)"

text \<open>
  Modelled from the spec: the standard normal cumulative distribution function, for
  \<open>scipy.stats.norm.cdf\<close>.
\<close>

definition Phi :: "real \<Rightarrow> real" where
  "Phi x = 1 / 2 + gauss_area x / sqrt (2 * pi)"

subsection \<open>The pricer: \<open>BS_CALL\<close> and \<open>BS_PUT\<close>\<close>

text \<open>
  \<open>np.log(S/K)\<close> is evaluated first: the division raises when \<open>K = 0\<close>. Then the
  logarithm needs \<open>S/K > 0\<close>, the square root needs \<open>T \<ge> 0\<close> and the division by
  \<open>sigma * sqrt T\<close> needs a divisor other than zero; otherwise numpy continues with a
  special value. Neither function checks its parameters.
\<close>

definition BS_CALL :: "real \<Rightarrow> real \<Rightarrow> real \<Rightarrow> real \<Rightarrow> real \<Rightarrow> real outcome" where
  "BS_CALL S K T r sigma =
     (if K = 0 then Raises ZeroDivisionError
      else if S / K \<le> 0 \<or> T < 0 \<or> sigma * sqrt T = 0 then Special
      else
        (let N = Phi;
             d1 = (ln (S / K) + (r + sigma\<^sup>2 / 2) * T) / (sigma * sqrt T);
             d2 = d1 - sigma * sqrt T;
             C = S * N d1 - K * exp (- r * T) * N d2
         in Returns C))"

definition BS_PUT :: "real \<Rightarrow> real \<Rightarrow> real \<Rightarrow> real \<Rightarrow> real \<Rightarrow> real outcome" where
  "BS_PUT S K T r sigma =
     (if K = 0 then Raises ZeroDivisionError
      else if S / K \<le> 0 \<or> T < 0 \<or> sigma * sqrt T = 0 then Special
      else
        (let N = Phi;
             d1 = (ln (S / K) + (r + sigma\<^sup>2 / 2) * T) / (sigma * sqrt T);
             d2 = d1 - sigma * sqrt T;
             P = K * exp (- r * T) * N (- d2) - S * N (- d1)
         in Returns P))"

subsection \<open>The floats that the pricers return\<close>

text \<open>
  A float of the pricers is a number or \<open>nan\<close>. The prices are never infinite: an
  infinite \<open>d1\<close> goes through \<open>N\<close>, and \<open>N(inf) = 1\<close>, \<open>N(-inf) = 0\<close>,
  \<open>N(nan) = nan\<close>.
\<close>

datatype npfloat = Num real | NaN

datatype ieee_special = PlusInf | MinusInf | NotANumber

text \<open>
  What \<open>d1\<close> is where \<open>BS_CALL\<close> and \<open>BS_PUT\<close> are \<open>Special\<close>, by the rules of IEEE
  arithmetic that numpy follows:
  \<^item> \<open>log\<close> of a negative number and \<open>sqrt\<close> of a negative number are \<open>nan\<close>, and
    \<open>nan\<close> stays \<open>nan\<close> in every operation;
  \<^item> \<open>log(0) = -inf\<close>, so that the numerator is \<open>-inf\<close> when \<open>S = 0\<close>; the denominator
    \<open>sigma * sqrt T\<close> has the sign of \<open>sigma\<close>, also when it is a zero (\<open>T = 0\<close> gives
    \<open>0.0\<close> for \<open>sigma \<ge> 0\<close> and \<open>-0.0\<close> for \<open>sigma < 0\<close>), and \<open>-inf\<close> divided by it is
    \<open>-inf\<close> for a positive and \<open>inf\<close> for a negative sign;
  \<^item> otherwise (\<open>S/K > 0\<close>, \<open>T \<ge> 0\<close>, and \<open>T = 0\<close> or \<open>sigma = 0\<close>) the numerator is a
    number and the denominator a zero with the sign of \<open>sigma\<close>: \<open>0/0 = nan\<close>, and a
    nonzero numerator gives the infinity whose sign is the product of the two signs.
  \<open>d2 = d1 - sigma * sqrt T\<close> is then the same special value as \<open>d1\<close>. The loop keeps
  the sign of \<open>sigma\<close>: it multiplies by \<open>0.95\<close> or \<open>1.05\<close>, and \<open>0.0\<close> stays \<open>0.0\<close>.
\<close>

definition d1_special :: "real \<Rightarrow> real \<Rightarrow> real \<Rightarrow> real \<Rightarrow> real \<Rightarrow> ieee_special" where
  "d1_special S K T r sigma =
     (if S / K < 0 \<or> T < 0 then NotANumber
      else if S / K = 0 then (if sigma < 0 then PlusInf else MinusInf)
      else
        (let num = ln (S / K) + (r + sigma\<^sup>2 / 2) * T
         in if num = 0 then NotANumber
            else if (0 < num) = (0 \<le> sigma) then PlusInf else MinusInf))"

text \<open>
  The float that \<open>C = S * N(d1) - K * np.exp(-r*T) * N(d2)\<close> is for such a \<open>d1\<close>, and
  the float that \<open>P = K*np.exp(-r*T)*N(-d2) - S*N(-d1)\<close> is.
\<close>

definition BS_CALL_special :: "real \<Rightarrow> real \<Rightarrow> real \<Rightarrow> real \<Rightarrow> real \<Rightarrow> npfloat" where
  "BS_CALL_special S K T r sigma =
     (case d1_special S K T r sigma of
        NotANumber \<Rightarrow> NaN
      | PlusInf \<Rightarrow> Num (S * 1 - K * exp (- r * T) * 1)
      | MinusInf \<Rightarrow> Num (S * 0 - K * exp (- r * T) * 0))"

definition BS_PUT_special :: "real \<Rightarrow> real \<Rightarrow> real \<Rightarrow> real \<Rightarrow> real \<Rightarrow> npfloat" where
  "BS_PUT_special S K T r sigma =
     (case d1_special S K T r sigma of
        NotANumber \<Rightarrow> NaN
      | PlusInf \<Rightarrow> Num (K * exp (- r * T) * 0 - S * 0)
      | MinusInf \<Rightarrow> Num (K * exp (- r * T) * 1 - S * 1))"

text \<open>
  What a call of \<open>BS_CALL\<close> or \<open>BS_PUT\<close> gives to its caller: the exception, or the
  float returned.
\<close>

definition BS_CALL_float :: "real \<Rightarrow> real \<Rightarrow> real \<Rightarrow> real \<Rightarrow> real \<Rightarrow> py_error + npfloat" where
  "BS_CALL_float S K T r sigma =
     (case BS_CALL S K T r sigma of
        Raises e \<Rightarrow> Inl e
      | Returns C \<Rightarrow> Inr (Num C)
      | Special \<Rightarrow> Inr (BS_CALL_special S K T r sigma))"

definition BS_PUT_float :: "real \<Rightarrow> real \<Rightarrow> real \<Rightarrow> real \<Rightarrow> real \<Rightarrow> py_error + npfloat" where
  "BS_PUT_float S K T r sigma =
     (case BS_PUT S K T r sigma of
        Raises e \<Rightarrow> Inl e
      | Returns P \<Rightarrow> Inr (Num P)
      | Special \<Rightarrow> Inr (BS_PUT_special S K T r sigma))"

subsection \<open>The calibrator: \<open>implied_volatility\<close>\<close>

definition tolerance :: real where
  "tolerance = 1 / 100"

definition max_iterations :: nat where
  "max_iterations = 100"

text \<open>
  The two tests of the loop body, \<open>abs(e - m) < tolerance\<close> and \<open>e > m\<close>, on a float
  \<open>e\<close>: a comparison with \<open>nan\<close> is false.
\<close>

definition within_tolerance :: "npfloat \<Rightarrow> real \<Rightarrow> bool" where
  "within_tolerance e m = (case e of Num x \<Rightarrow> \<bar>x - m\<bar> < tolerance | NaN \<Rightarrow> False)"

definition exceeds :: "npfloat \<Rightarrow> real \<Rightarrow> bool" where
  "exceeds e m = (case e of Num x \<Rightarrow> x > m | NaN \<Rightarrow> False)"

text \<open>
  Python's \<open>round(x, ndigits)\<close> on a float: the nearest multiple of \<open>10^(-ndigits)\<close>,
  a tie going to the even multiple.
\<close>

definition round_half_even :: "real \<Rightarrow> int" where
  "round_half_even x =
     (let f = \<lfloor>x\<rfloor>; d = x - of_int f
      in if d < 1 / 2 then f
         else if 1 / 2 < d then f + 1
         else if even f then f else f + 1)"

definition py_round :: "real \<Rightarrow> nat \<Rightarrow> real" where
  "py_round x ndigits = of_int (round_half_even (x * 10 ^ ndigits)) / 10 ^ ndigits"

text \<open>
  The two \<open>for _ in range(max_iterations)\<close> loops of the source are the same statement,
  once with \<open>BS_CALL\<close>, \<open>m_call\<close>, \<open>sigma_call\<close>, \<open>call_vol\<close> and once with \<open>BS_PUT\<close>,
  \<open>m_put\<close>, \<open>sigma_put\<close>, \<open>put_vol\<close>. \<open>search_loop price m n sigma\<close> is that statement
  with \<open>n\<close> iterations left: \<open>price\<close> is the pricer at the fixed \<open>S K T r\<close>, \<open>m\<close> the
  market price, \<open>sigma\<close> the current guess. The \<open>else\<close> of the \<open>for\<close> (no \<open>break\<close>
  happened) is the case \<open>n = 0\<close>. An exception of the pricer leaves the loop; on a
  \<open>nan\<close> both tests are false and the loop goes on with the larger \<open>sigma\<close>.
\<close>

fun search_loop ::
  "(real \<Rightarrow> py_error + npfloat) \<Rightarrow> real \<Rightarrow> nat \<Rightarrow> real \<Rightarrow> py_error + real option" where
  "search_loop price m 0 sigma = Inr None"
| "search_loop price m (Suc n) sigma =
     (case price sigma of
        Inl err \<Rightarrow> Inl err
      | Inr e \<Rightarrow>
          if within_tolerance e m then Inr (Some (py_round sigma 4))
          else if exceeds e m then search_loop price m n (sigma - sigma * (5 / 100))
          else search_loop price m n (sigma + sigma * (5 / 100)))"

text \<open>
  The values of the loop variable \<open>sigma\<close> at which the loop body is entered, in order:
  one entry for each iteration that \<open>search_loop\<close> performs.
\<close>

fun search_sigmas :: "(real \<Rightarrow> py_error + npfloat) \<Rightarrow> real \<Rightarrow> nat \<Rightarrow> real \<Rightarrow> real list" where
  "search_sigmas price m 0 sigma = []"
| "search_sigmas price m (Suc n) sigma =
     sigma #
     (case price sigma of
        Inl err \<Rightarrow> []
      | Inr e \<Rightarrow>
          if within_tolerance e m then []
          else if exceeds e m then search_sigmas price m n (sigma - sigma * (5 / 100))
          else search_sigmas price m n (sigma + sigma * (5 / 100)))"

text \<open>The call loop runs first, then the put loop; both start from \<open>initial_sigma\<close>.\<close>

definition implied_volatility ::
  "real \<Rightarrow> real \<Rightarrow> real \<Rightarrow> real \<Rightarrow> real \<Rightarrow> real \<Rightarrow> real \<Rightarrow> py_error + (real option \<times> real option)" where
  "implied_volatility m_call m_put S K T r initial_sigma =
     (case search_loop (BS_CALL_float S K T r) m_call max_iterations initial_sigma of
        Inl err \<Rightarrow> Inl err
      | Inr call_vol \<Rightarrow>
          (case search_loop (BS_PUT_float S K T r) m_put max_iterations initial_sigma of
             Inl err \<Rightarrow> Inl err
           | Inr put_vol \<Rightarrow> Inr (call_vol, put_vol)))"

subsection \<open>The algorithm in the words of the specification\<close>

text \<open>
  Section 4.1 of the specification: \<open>d1\<close>, \<open>d2\<close> and the two prices.
\<close>

definition spec_d1 :: "real \<Rightarrow> real \<Rightarrow> real \<Rightarrow> real \<Rightarrow> real \<Rightarrow> real" where
  "spec_d1 S K T r sigma = (ln (S / K) + (r + sigma\<^sup>2 / 2) * T) / (sigma * sqrt T)"

definition spec_d2 :: "real \<Rightarrow> real \<Rightarrow> real \<Rightarrow> real \<Rightarrow> real \<Rightarrow> real" where
  "spec_d2 S K T r sigma = spec_d1 S K T r sigma - sigma * sqrt T"

definition spec_price_call :: "real \<Rightarrow> real \<Rightarrow> real \<Rightarrow> real \<Rightarrow> real \<Rightarrow> real" where
  "spec_price_call S K T r sigma =
     S * Phi (spec_d1 S K T r sigma) - K * exp (- (r * T)) * Phi (spec_d2 S K T r sigma)"

definition spec_price_put :: "real \<Rightarrow> real \<Rightarrow> real \<Rightarrow> real \<Rightarrow> real \<Rightarrow> real" where
  "spec_price_put S K T r sigma =
     K * exp (- (r * T)) * Phi (- spec_d2 S K T r sigma) - S * Phi (- spec_d1 S K T r sigma)"


section \<open>Properties\<close>

subsection \<open>The distribution function: derivative, symmetry and bounds\<close>

text \<open>
  The series is what the text above says it is: \<open>gauss_area\<close> vanishes at \<open>0\<close> and has
  the derivative \<open>exp (- x^2 / 2)\<close> everywhere, so that \<open>Phi\<close> has the standard normal
  density as its derivative and \<open>Phi 0 = 1/2\<close>. The bounds \<open>0 \<le> Phi x \<le> 1\<close> need the
  value of the Gaussian integral; they are obtained from Riemann sums of
  \<open>exp (- x^2 (1 + t^2) / 2) / (1 + t^2)\<close> over \<open>t\<close> in \<open>[0, 1]\<close>, whose value at
  \<open>x = 0\<close> is a Riemann sum of the derivative of \<open>arctan\<close>.
\<close>

lemma diffs_gauss_coeff:
  "diffs gauss_coeff n = (if even n then (- 1 / 2) ^ (n div 2) / fact (n div 2) else 0)"
  by (simp add: diffs_def gauss_coeff_def del: of_nat_Suc)

lemma density_term:
  "diffs gauss_coeff (2 * k) * x ^ (2 * k) = (- (x\<^sup>2) / 2) ^ k /\<^sub>R fact k"
proof -
  have "- (x\<^sup>2) / 2 = (- 1 / 2) * x\<^sup>2"
    by simp
  then have p: "(- (x\<^sup>2) / 2) ^ k = (- 1 / 2) ^ k * x ^ (2 * k)"
    by (simp only: power_mult_distrib power_mult)
  have d: "diffs gauss_coeff (2 * k) = (- 1 / 2) ^ k / fact k"
    by (simp add: diffs_gauss_coeff)
  show ?thesis
    unfolding p d by (simp only: real_scaleR_def divide_inverse mult_ac)
qed

lemma density_series:
  "(\<lambda>n. diffs gauss_coeff n * x ^ n) sums exp (- (x\<^sup>2) / 2)"
proof -
  have e: "(\<lambda>k. (- (x\<^sup>2) / 2) ^ k /\<^sub>R fact k) sums exp (- (x\<^sup>2) / 2)"
    by (rule exp_converges)
  have z: "(\<lambda>k::nat. 0::real) sums 0"
    by simp
  have "(\<lambda>n. if even n then (- (x\<^sup>2) / 2) ^ (n div 2) /\<^sub>R fact (n div 2) else 0)
      sums (0 + exp (- (x\<^sup>2) / 2))"
    by (rule sums_if [OF z e])
  moreover have "(if even n then (- (x\<^sup>2) / 2) ^ (n div 2) /\<^sub>R fact (n div 2) else 0)
      = diffs gauss_coeff n * x ^ n" for n
  proof (cases "even n")
    case True
    then obtain k where k: "n = 2 * k" by (auto elim: evenE)
    show ?thesis
      unfolding k density_term by simp
  next
    case False
    then show ?thesis by (simp add: diffs_gauss_coeff)
  qed
  ultimately show ?thesis by simp
qed

lemma gauss_coeff_Suc: "gauss_coeff (Suc n) = diffs gauss_coeff n / real (Suc n)"
  by (simp add: diffs_def del: of_nat_Suc)

lemma gauss_coeff_summable: "summable (\<lambda>n. gauss_coeff n * x ^ n)"
proof -
  have "summable (\<lambda>n. diffs gauss_coeff n * (\<bar>x\<bar> + 1) ^ n)"
    using density_series sums_summable by blast
  then have d: "summable (\<lambda>n. norm (diffs gauss_coeff n * x ^ n))"
    by (rule powser_insidea) simp
  have b: "norm (gauss_coeff (Suc n) * x ^ Suc n) \<le> \<bar>x\<bar> * norm (diffs gauss_coeff n * x ^ n)" for n
  proof -
    have "norm (gauss_coeff (Suc n) * x ^ Suc n)
        = (\<bar>x\<bar> * norm (diffs gauss_coeff n * x ^ n)) / real (Suc n)"
      by (simp add: gauss_coeff_Suc abs_mult del: of_nat_Suc)
    also have "\<dots> \<le> (\<bar>x\<bar> * norm (diffs gauss_coeff n * x ^ n)) / 1"
      by (intro divide_left_mono) simp_all
    finally show ?thesis by simp
  qed
  have "summable (\<lambda>n. \<bar>x\<bar> * norm (diffs gauss_coeff n * x ^ n))"
    using d by (rule summable_mult)
  then have "summable (\<lambda>n. gauss_coeff (Suc n) * x ^ Suc n)"
    by (rule summable_comparison_test') (rule b)
  then show ?thesis
    by (rule summable_Suc_iff [THEN iffD1])
qed

lemma DERIV_gauss_area: "DERIV gauss_area x :> exp (- (x\<^sup>2) / 2)"
proof -
  have "((\<lambda>x. \<Sum>n. gauss_coeff n * x ^ n) has_field_derivative
      (\<Sum>n. diffs gauss_coeff n * x ^ n)) (at x)"
    by (rule termdiffs_strong_converges_everywhere) (rule gauss_coeff_summable)
  moreover have "(\<Sum>n. diffs gauss_coeff n * x ^ n) = exp (- (x\<^sup>2) / 2)"
    using density_series by (rule sums_unique [symmetric])
  moreover have "gauss_area = (\<lambda>x. \<Sum>n. gauss_coeff n * x ^ n)"
    by (rule ext) (simp add: gauss_area_def)
  ultimately show ?thesis by simp
qed

lemma gauss_area_0: "gauss_area 0 = 0"
proof -
  have "gauss_coeff n * 0 ^ n = 0" for n
    by (cases n) (simp_all add: gauss_coeff_def)
  then have "(\<lambda>n. gauss_coeff n * 0 ^ n) = (\<lambda>n. 0)"
    by (intro ext)
  then show ?thesis
    unfolding gauss_area_def by simp
qed

lemma gauss_area_minus: "gauss_area (- x) = - gauss_area x"
proof -
  have "gauss_coeff n * (- x) ^ n = - (gauss_coeff n * x ^ n)" for n
    by (cases "even n") (simp_all add: gauss_coeff_def)
  then have "gauss_area (- x) = (\<Sum>n. - (gauss_coeff n * x ^ n))"
    by (simp add: gauss_area_def)
  also have "\<dots> = - (\<Sum>n. gauss_coeff n * x ^ n)"
    by (rule suminf_minus) (rule gauss_coeff_summable)
  finally show ?thesis
    by (simp add: gauss_area_def)
qed

lemma Phi_zero: "Phi 0 = 1 / 2"
  by (simp add: Phi_def gauss_area_0)

lemma Phi_minus: "Phi (- x) = 1 - Phi x"
  by (simp add: Phi_def gauss_area_minus)

lemma DERIV_Phi: "DERIV Phi x :> exp (- (x\<^sup>2) / 2) / sqrt (2 * pi)"
proof -
  have "DERIV (\<lambda>x. gauss_area x / sqrt (2 * pi)) x :> exp (- (x\<^sup>2) / 2) / sqrt (2 * pi)"
    by (rule DERIV_cdivide [OF DERIV_gauss_area])
  from DERIV_add [OF DERIV_const this, of "1 / 2"] show ?thesis
    unfolding Phi_def [abs_def] by simp
qed

lemma gauss_area_step:
  assumes "0 \<le> a" "a \<le> b"
  shows "gauss_area b - gauss_area a \<le> (b - a) * exp (- (a\<^sup>2) / 2)"
proof (cases "a = b")
  case True
  then show ?thesis by simp
next
  case False
  with assms have "a < b" by simp
  from MVT2 [OF this, of gauss_area "\<lambda>x. exp (- (x\<^sup>2) / 2)"] DERIV_gauss_area
  obtain z where z: "a < z" "z < b"
    and eq: "gauss_area b - gauss_area a = (b - a) * exp (- (z\<^sup>2) / 2)"
    by blast
  have "a\<^sup>2 \<le> z\<^sup>2"
    using assms(1) z(1) by (intro power_mono) simp_all
  then have "exp (- (z\<^sup>2) / 2) \<le> exp (- (a\<^sup>2) / 2)"
    by simp
  then have "(b - a) * exp (- (z\<^sup>2) / 2) \<le> (b - a) * exp (- (a\<^sup>2) / 2)"
    using assms(2) by (intro mult_left_mono) simp_all
  then show ?thesis
    by (simp only: eq)
qed

lemma arctan_step:
  assumes "0 \<le> a" "a \<le> b"
  shows "(b - a) / (1 + b\<^sup>2) \<le> arctan b - arctan a"
proof (cases "a = b")
  case True
  then show ?thesis by simp
next
  case False
  with assms have "a < b" by simp
  from MVT2 [OF this, of arctan "\<lambda>x. inverse (1 + x\<^sup>2)"] DERIV_arctan
  obtain z where z: "a < z" "z < b"
    and eq: "arctan b - arctan a = (b - a) * inverse (1 + z\<^sup>2)"
    by blast
  have "z\<^sup>2 \<le> b\<^sup>2"
    using assms(1) z by (intro power_mono) simp_all
  moreover have "0 < 1 + z\<^sup>2"
    by (simp add: add_pos_nonneg)
  ultimately have "inverse (1 + b\<^sup>2) \<le> inverse (1 + z\<^sup>2)"
    by (intro le_imp_inverse_le) simp_all
  then have "(b - a) * inverse (1 + b\<^sup>2) \<le> (b - a) * inverse (1 + z\<^sup>2)"
    using assms(2) by (intro mult_left_mono) simp_all
  then show ?thesis
    by (simp only: eq divide_inverse)
qed

lemma gauss_area_left_sum:
  assumes "0 \<le> h"
  shows "gauss_area (real n * h) \<le> h * (\<Sum>i<n. exp (- ((real i * h)\<^sup>2) / 2))"
proof (induction n)
  case 0
  show ?case by (simp add: gauss_area_0)
next
  case (Suc n)
  have "gauss_area (real (Suc n) * h) - gauss_area (real n * h)
      \<le> (real (Suc n) * h - real n * h) * exp (- ((real n * h)\<^sup>2) / 2)"
    using assms by (intro gauss_area_step) (simp_all add: mult_right_mono)
  also have "real (Suc n) * h - real n * h = h"
    by (simp add: algebra_simps)
  finally show ?case
    using Suc.IH by (simp add: algebra_simps)
qed

lemma arctan_left_sum:
  assumes "0 \<le> h"
  shows "h * (\<Sum>i<Suc n. 1 / (1 + (real i * h)\<^sup>2)) \<le> h + arctan (real n * h)"
proof (induction n)
  case 0
  show ?case by simp
next
  case (Suc n)
  have "(real (Suc n) * h - real n * h) / (1 + (real (Suc n) * h)\<^sup>2)
      \<le> arctan (real (Suc n) * h) - arctan (real n * h)"
    using assms by (intro arctan_step) (simp_all add: mult_right_mono)
  moreover have "real (Suc n) * h - real n * h = h"
    by (simp add: algebra_simps)
  ultimately have "h / (1 + (real (Suc n) * h)\<^sup>2)
      \<le> arctan (real (Suc n) * h) - arctan (real n * h)"
    by simp
  moreover have "h * (\<Sum>i<Suc (Suc n). 1 / (1 + (real i * h)\<^sup>2))
      = h * (\<Sum>i<Suc n. 1 / (1 + (real i * h)\<^sup>2)) + h / (1 + (real (Suc n) * h)\<^sup>2)"
    by (simp add: distrib_left del: of_nat_Suc)
  ultimately show ?case
    using Suc.IH by linarith
qed

lemma DERIV_strip_term:
  fixes t x :: real
  shows "DERIV (\<lambda>x. exp (- (x\<^sup>2 * (1 + t\<^sup>2)) / 2) / (1 + t\<^sup>2)) x
     :> - (x * exp (- (x\<^sup>2) / 2) * exp (- ((x * t)\<^sup>2) / 2))"
proof -
  have pos: "0 < 1 + t\<^sup>2"
    by (simp add: add_pos_nonneg)
  have split: "- (x\<^sup>2 * (1 + t\<^sup>2)) / 2 = - (x\<^sup>2) / 2 + - ((x * t)\<^sup>2) / 2"
    by (simp add: field_simps power_mult_distrib)
  have "DERIV (\<lambda>x. exp (- (x\<^sup>2 * (1 + t\<^sup>2)) / 2)) x
      :> exp (- (x\<^sup>2 * (1 + t\<^sup>2)) / 2) * (- (x * (1 + t\<^sup>2)))"
    by (auto intro!: derivative_eq_intros)
  from DERIV_cdivide [OF this, of "1 + t\<^sup>2"]
  have "DERIV (\<lambda>x. exp (- (x\<^sup>2 * (1 + t\<^sup>2)) / 2) / (1 + t\<^sup>2)) x
      :> exp (- (x\<^sup>2 * (1 + t\<^sup>2)) / 2) * (- (x * (1 + t\<^sup>2))) / (1 + t\<^sup>2)" .
  moreover have "exp (- (x\<^sup>2 * (1 + t\<^sup>2)) / 2) * (- (x * (1 + t\<^sup>2))) / (1 + t\<^sup>2)
      = - (x * exp (- (x\<^sup>2) / 2) * exp (- ((x * t)\<^sup>2) / 2))"
  proof -
    have nz: "1 + t\<^sup>2 \<noteq> 0"
      using pos by simp
    have e: "exp (- (x\<^sup>2 * (1 + t\<^sup>2)) / 2) = exp (- (x\<^sup>2) / 2) * exp (- ((x * t)\<^sup>2) / 2)"
      unfolding split by (rule exp_add)
    have "exp (- (x\<^sup>2 * (1 + t\<^sup>2)) / 2) * (- (x * (1 + t\<^sup>2))) / (1 + t\<^sup>2)
        = exp (- (x\<^sup>2 * (1 + t\<^sup>2)) / 2) * (- x * ((1 + t\<^sup>2) / (1 + t\<^sup>2)))"
      by (simp only: times_divide_eq_right mult_minus_left)
    also have "\<dots> = exp (- (x\<^sup>2 * (1 + t\<^sup>2)) / 2) * (- x)"
      by (simp only: divide_self [OF nz] mult_1_right)
    also have "\<dots> = - (x * exp (- (x\<^sup>2) / 2) * exp (- ((x * t)\<^sup>2) / 2))"
      unfolding e by (simp only: mult_minus_right mult_ac)
    finally show ?thesis .
  qed
  ultimately show ?thesis by simp
qed

lemma DERIV_strip_sum:
  fixes t :: "nat \<Rightarrow> real" and x :: real
  shows "DERIV (\<lambda>x. \<Sum>i<n. exp (- (x\<^sup>2 * (1 + (t i)\<^sup>2)) / 2) / (1 + (t i)\<^sup>2)) x
     :> (\<Sum>i<n. - (x * exp (- (x\<^sup>2) / 2) * exp (- ((x * t i)\<^sup>2) / 2)))"
  by (rule DERIV_sum) (rule DERIV_strip_term)

lemma gauss_area_sq_bound:
  assumes "0 \<le> x"
  shows "(gauss_area x)\<^sup>2 \<le> pi / 2 + 2 / real (Suc M)"
proof -
  define h where "h = 1 / real (Suc M)"
  define t where "t i = real i * h" for i
  define G where "G y = (\<Sum>i<Suc M. exp (- (y\<^sup>2 * (1 + (t i)\<^sup>2)) / 2) / (1 + (t i)\<^sup>2))" for y
  define F where "F y = (gauss_area y)\<^sup>2 + 2 * h * G y" for y
  have h_pos: "0 < h"
    by (simp add: h_def)
  have Nh: "real (Suc M) * h = 1"
    by (simp add: h_def)
  have dF: "DERIV F y :> 2 * gauss_area y * exp (- (y\<^sup>2) / 2)
      + 2 * h * (\<Sum>i<Suc M. - (y * exp (- (y\<^sup>2) / 2) * exp (- ((y * t i)\<^sup>2) / 2)))" for y
  proof -
    have "DERIV (\<lambda>y. (gauss_area y)\<^sup>2) y :> 2 * gauss_area y * exp (- (y\<^sup>2) / 2)"
      using DERIV_power [OF DERIV_gauss_area, of 2 y] by (simp add: mult_ac)
    moreover have "DERIV (\<lambda>y. 2 * h * G y) y
        :> 2 * h * (\<Sum>i<Suc M. - (y * exp (- (y\<^sup>2) / 2) * exp (- ((y * t i)\<^sup>2) / 2)))"
      unfolding G_def by (rule DERIV_cmult) (rule DERIV_strip_sum)
    ultimately show ?thesis
      unfolding F_def by (rule DERIV_add)
  qed
  have neg: "2 * gauss_area y * exp (- (y\<^sup>2) / 2)
      + 2 * h * (\<Sum>i<Suc M. - (y * exp (- (y\<^sup>2) / 2) * exp (- ((y * t i)\<^sup>2) / 2))) \<le> 0"
    if "0 \<le> y" for y
  proof -
    have "0 \<le> y * h"
      using that h_pos by simp
    have B: "real (Suc M) * (y * h) = y"
      by (simp only: mult.left_commute [of "real (Suc M)" y h] Nh mult_1_right)
    have C: "real i * (y * h) = y * t i" for i
      by (simp only: t_def mult.left_commute)
    have le: "gauss_area y \<le> y * h * (\<Sum>i<Suc M. exp (- ((y * t i)\<^sup>2) / 2))"
      using gauss_area_left_sum [OF \<open>0 \<le> y * h\<close>, of "Suc M", unfolded B] unfolding C .
    have "2 * gauss_area y * exp (- (y\<^sup>2) / 2)
        + 2 * h * (\<Sum>i<Suc M. - (y * exp (- (y\<^sup>2) / 2) * exp (- ((y * t i)\<^sup>2) / 2)))
      = 2 * exp (- (y\<^sup>2) / 2)
        * (gauss_area y - y * h * (\<Sum>i<Suc M. exp (- ((y * t i)\<^sup>2) / 2)))"
      by (simp add: sum_negf sum_distrib_left algebra_simps)
    also have "\<dots> \<le> 0"
      using le by (intro mult_nonneg_nonpos) simp_all
    finally show ?thesis .
  qed
  have "F x \<le> F 0"
    using assms by (intro DERIV_nonpos_imp_nonincreasing [of 0 x F]) (use dF neg in blast)+
  moreover have "(gauss_area x)\<^sup>2 \<le> F x"
  proof -
    have "0 \<le> G x"
      unfolding G_def by (intro sum_nonneg divide_nonneg_nonneg) (simp_all add: add_nonneg_nonneg)
    then have "0 \<le> 2 * h * G x"
      using h_pos by simp
    then show ?thesis
      by (simp add: F_def)
  qed
  moreover have "F 0 \<le> pi / 2 + 2 / real (Suc M)"
  proof -
    have "F 0 = 2 * (h * (\<Sum>i<Suc M. 1 / (1 + (real i * h)\<^sup>2)))"
      by (simp add: F_def G_def t_def gauss_area_0)
    also have "\<dots> \<le> 2 * (h + arctan (real M * h))"
      using h_pos by (intro mult_left_mono arctan_left_sum) simp_all
    also have "arctan (real M * h) \<le> arctan 1"
      by (intro arctan_monotone') (simp add: h_def)
    finally have "F 0 \<le> 2 * (h + pi / 4)"
      by (simp add: arctan_one)
    then show ?thesis
      by (simp add: h_def)
  qed
  ultimately show ?thesis by linarith
qed

lemma half_gap: "c < (a - p) / 2 \<Longrightarrow> p + 2 * c < a" for a c p :: real
  by simp

lemma gauss_area_sq_le: "(gauss_area x)\<^sup>2 \<le> pi / 2"
proof (rule ccontr)
  assume "\<not> (gauss_area x)\<^sup>2 \<le> pi / 2"
  then have gap: "0 < ((gauss_area x)\<^sup>2 - pi / 2) / 2"
    by simp
  have sq: "(gauss_area \<bar>x\<bar>)\<^sup>2 = (gauss_area x)\<^sup>2"
    by (cases "0 \<le> x") (simp_all add: abs_if gauss_area_minus)
  from reals_Archimedean [OF gap] obtain M
    where "inverse (real (Suc M)) < ((gauss_area x)\<^sup>2 - pi / 2) / 2"
    by blast
  then have "pi / 2 + 2 * inverse (real (Suc M)) < (gauss_area x)\<^sup>2"
    by (rule half_gap)
  then have "pi / 2 + 2 / real (Suc M) < (gauss_area x)\<^sup>2"
    by (simp only: divide_inverse)
  moreover have "(gauss_area \<bar>x\<bar>)\<^sup>2 \<le> pi / 2 + 2 / real (Suc M)"
    by (intro gauss_area_sq_bound abs_ge_zero)
  ultimately show False
    unfolding sq by linarith
qed

lemma gauss_area_abs_le: "\<bar>gauss_area x\<bar> \<le> sqrt (pi / 2)"
proof -
  have "sqrt ((gauss_area x)\<^sup>2) \<le> sqrt (pi / 2)"
    using gauss_area_sq_le by (simp only: real_sqrt_le_iff)
  then show ?thesis by simp
qed

lemma Phi_bounds: "0 \<le> Phi x \<and> Phi x \<le> 1"
proof -
  have s: "sqrt (2 * pi) = 2 * sqrt (pi / 2)"
  proof -
    have "2 * pi = 2\<^sup>2 * (pi / 2)" by simp
    then have "sqrt (2 * pi) = sqrt (2\<^sup>2 * (pi / 2))" by simp
    also have "\<dots> = 2 * sqrt (pi / 2)"
      by (simp only: real_sqrt_mult real_sqrt_abs)
    finally show ?thesis .
  qed
  have p: "0 < sqrt (pi / 2)"
    by simp
  have "\<bar>gauss_area x / sqrt (2 * pi)\<bar> \<le> 1 / 2"
    using gauss_area_abs_le [of x] p unfolding s
    by (simp add: field_simps abs_if split: if_splits)
  then show ?thesis
    unfolding Phi_def by linarith
qed

subsection \<open>Outcomes of the pricer and of the search\<close>

lemma BS_CALL_value:
  "K \<noteq> 0 \<Longrightarrow> 0 < S / K \<Longrightarrow> 0 < T \<Longrightarrow> sigma \<noteq> 0 \<Longrightarrow>
     BS_CALL S K T r sigma = Returns (spec_price_call S K T r sigma)"
  by (simp add: BS_CALL_def spec_price_call_def spec_d1_def spec_d2_def Let_def)

lemma BS_PUT_value:
  "K \<noteq> 0 \<Longrightarrow> 0 < S / K \<Longrightarrow> 0 < T \<Longrightarrow> sigma \<noteq> 0 \<Longrightarrow>
     BS_PUT S K T r sigma = Returns (spec_price_put S K T r sigma)"
  by (simp add: BS_PUT_def spec_price_put_def spec_d1_def spec_d2_def Let_def)

lemma BS_CALL_raises: "BS_CALL S K T r sigma = Raises e \<longleftrightarrow> K = 0 \<and> e = ZeroDivisionError"
  by (auto simp: BS_CALL_def Let_def)

lemma BS_PUT_raises: "BS_PUT S K T r sigma = Raises e \<longleftrightarrow> K = 0 \<and> e = ZeroDivisionError"
  by (auto simp: BS_PUT_def Let_def)

lemma BS_CALL_special:
  "BS_CALL S K T r sigma = Special \<longleftrightarrow> K \<noteq> 0 \<and> (S / K \<le> 0 \<or> T \<le> 0 \<or> sigma = 0)"
  by (auto simp: BS_CALL_def Let_def)

lemma BS_PUT_special:
  "BS_PUT S K T r sigma = Special \<longleftrightarrow> K \<noteq> 0 \<and> (S / K \<le> 0 \<or> T \<le> 0 \<or> sigma = 0)"
  by (auto simp: BS_PUT_def Let_def)

lemma BS_CALL_returnsD:
  "BS_CALL S K T r sigma = Returns v \<Longrightarrow> K \<noteq> 0 \<and> 0 < S / K \<and> 0 < T \<and> sigma \<noteq> 0"
proof -
  assume "BS_CALL S K T r sigma = Returns v"
  then have "BS_CALL S K T r sigma \<noteq> Raises ZeroDivisionError"
    and "BS_CALL S K T r sigma \<noteq> Special"
    by simp_all
  then show ?thesis
    unfolding BS_CALL_raises BS_CALL_special by (simp add: not_le)
qed

lemma BS_PUT_returnsD:
  "BS_PUT S K T r sigma = Returns v \<Longrightarrow> K \<noteq> 0 \<and> 0 < S / K \<and> 0 < T \<and> sigma \<noteq> 0"
proof -
  assume "BS_PUT S K T r sigma = Returns v"
  then have "BS_PUT S K T r sigma \<noteq> Raises ZeroDivisionError"
    and "BS_PUT S K T r sigma \<noteq> Special"
    by simp_all
  then show ?thesis
    unfolding BS_PUT_raises BS_PUT_special by (simp add: not_le)
qed

text \<open>What the caller of a pricer gets, by the contract parameters.\<close>

lemma BS_CALL_float_raises:
  "BS_CALL_float S K T r sigma = Inl e \<longleftrightarrow> K = 0 \<and> e = ZeroDivisionError"
  using BS_CALL_raises [of S K T r sigma e]
  by (cases "BS_CALL S K T r sigma") (auto simp: BS_CALL_float_def)

lemma BS_PUT_float_raises:
  "BS_PUT_float S K T r sigma = Inl e \<longleftrightarrow> K = 0 \<and> e = ZeroDivisionError"
  using BS_PUT_raises [of S K T r sigma e]
  by (cases "BS_PUT S K T r sigma") (auto simp: BS_PUT_float_def)

lemma BS_CALL_float_value:
  "K \<noteq> 0 \<Longrightarrow> 0 < S / K \<Longrightarrow> 0 < T \<Longrightarrow> sigma \<noteq> 0 \<Longrightarrow>
     BS_CALL_float S K T r sigma = Inr (Num (spec_price_call S K T r sigma))"
  by (simp add: BS_CALL_float_def BS_CALL_value)

lemma BS_PUT_float_value:
  "K \<noteq> 0 \<Longrightarrow> 0 < S / K \<Longrightarrow> 0 < T \<Longrightarrow> sigma \<noteq> 0 \<Longrightarrow>
     BS_PUT_float S K T r sigma = Inr (Num (spec_price_put S K T r sigma))"
  by (simp add: BS_PUT_float_def BS_PUT_value)

lemma BS_CALL_float_returns: "K \<noteq> 0 \<Longrightarrow> \<exists>e. BS_CALL_float S K T r sigma = Inr e"
  by (cases "BS_CALL_float S K T r sigma") (simp_all add: BS_CALL_float_raises)

lemma BS_PUT_float_returns: "K \<noteq> 0 \<Longrightarrow> \<exists>e. BS_PUT_float S K T r sigma = Inr e"
  by (cases "BS_PUT_float S K T r sigma") (simp_all add: BS_PUT_float_raises)

subsection \<open>The search loop\<close>

lemma search_sigmas_length: "length (search_sigmas price m n s) \<le> n"
  by (induction n arbitrary: s) (auto split: sum.splits)


lemma search_loop_None_iff:
  "search_loop price m n s = Inr None \<longleftrightarrow>
     length (search_sigmas price m n s) = n \<and>
     (\<forall>x \<in> set (search_sigmas price m n s). \<exists>e. price x = Inr e \<and> \<not> within_tolerance e m)"
proof (induction n arbitrary: s)
  case 0
  show ?case by simp
next
  case (Suc n)
  show ?case
  proof (cases "price s")
    case (Inr e)
    then show ?thesis
      using Suc.IH [of "s - s * (5 / 100)"] Suc.IH [of "s + s * (5 / 100)"]
      by auto
  qed simp_all
qed

lemma search_loop_Some_iff:
  "search_loop price m n s = Inr (Some v) \<longleftrightarrow>
     search_sigmas price m n s \<noteq> [] \<and>
     (\<exists>e. price (last (search_sigmas price m n s)) = Inr e \<and> within_tolerance e m) \<and>
     v = py_round (last (search_sigmas price m n s)) 4"
proof (induction n arbitrary: s)
  case 0
  show ?case by simp
next
  case (Suc n)
  show ?case
  proof (cases "price s")
    case (Inr e)
    then show ?thesis
      using Suc.IH [of "s - s * (5 / 100)"] Suc.IH [of "s + s * (5 / 100)"]
      by auto
  qed simp_all
qed

lemma search_loop_returns:
  assumes "\<And>x. \<exists>e. price x = Inr e"
  shows "\<exists>v. search_loop price m n s = Inr v"
proof (induction n arbitrary: s)
  case 0
  show ?case by simp
next
  case (Suc n)
  from assms obtain e where e: "price s = Inr e" by blast
  show ?case
    using Suc.IH e by simp
qed

lemma search_loop_None_total:
  assumes "\<And>x. \<exists>e. price x = Inr e"
  shows "search_loop price m n s = Inr None \<longleftrightarrow>
     (\<forall>x \<in> set (search_sigmas price m n s). \<forall>e. price x = Inr e \<longrightarrow> \<not> within_tolerance e m)"
proof (induction n arbitrary: s)
  case 0
  show ?case by simp
next
  case (Suc n)
  from assms obtain e where e: "price s = Inr e" by blast
  show ?case
    using Suc.IH [of "s - s * (5 / 100)"] Suc.IH [of "s + s * (5 / 100)"] e
    by auto
qed

lemma search_sigmas_positive:
  "0 < s \<Longrightarrow> x \<in> set (search_sigmas price m n s) \<Longrightarrow> 0 < x"
proof (induction n arbitrary: s)
  case 0
  then show ?case by simp
next
  case (Suc n)
  have pos: "0 < s - s * (5 / 100)" "0 < s + s * (5 / 100)"
    using Suc.prems(1) by simp_all
  then show ?case
    using Suc.IH [of "s - s * (5 / 100)"] Suc.IH [of "s + s * (5 / 100)"] Suc.prems
    by (auto split: sum.splits if_splits)
qed

lemma round_half_even_nonneg: "0 \<le> x \<Longrightarrow> 0 \<le> round_half_even x"
  by (auto simp: round_half_even_def Let_def)

lemma py_round_nonneg: "0 \<le> x \<Longrightarrow> 0 \<le> py_round x n"
  by (simp add: py_round_def round_half_even_nonneg)

text \<open>
  \<open>py_round x 4\<close> is a multiple of \<open>1/10000\<close> and is nearest to \<open>x\<close> among them.
\<close>

lemma round_half_even_near: "\<bar>of_int (round_half_even x) - x\<bar> \<le> 1 / 2"
proof -
  define f where "f = \<lfloor>x\<rfloor>"
  define d where "d = x - of_int f"
  have d: "0 \<le> d" "d < 1"
    unfolding d_def f_def by linarith+
  have x: "x = of_int f + d"
    by (simp add: d_def)
  consider "d < 1 / 2" | "1 / 2 < d" | "d = 1 / 2" "even f" | "d = 1 / 2" "odd f"
    by fastforce
  then have "round_half_even x = f \<and> d \<le> 1 / 2 \<or> round_half_even x = f + 1 \<and> 1 / 2 \<le> d"
    unfolding round_half_even_def Let_def f_def [symmetric] d_def [symmetric]
    by cases simp_all
  then show ?thesis
    using d unfolding x by (auto simp: abs_if)
qed

lemma py_round_4_near:
  "\<bar>py_round x 4 - x\<bar> \<le> 1 / 20000 \<and> (\<exists>k :: int. py_round x 4 = of_int k / 10000)"
proof -
  define y where "y = real_of_int (round_half_even (x * 10000))"
  have p: "py_round x 4 = y / 10000"
    by (simp add: py_round_def y_def)
  have "\<bar>y - x * 10000\<bar> \<le> 1 / 2"
    unfolding y_def by (rule round_half_even_near)
  then have "\<bar>y / 10000 - x\<bar> \<le> 1 / 20000"
    by (simp add: abs_if field_simps split: if_splits)
  then show ?thesis
    unfolding p y_def by blast
qed

lemma search_loop_nonneg:
  assumes "0 < s" and "search_loop price m n s = Inr (Some v)"
  shows "0 \<le> v"
proof -
  from assms(2) have ne: "search_sigmas price m n s \<noteq> []"
    and v: "v = py_round (last (search_sigmas price m n s)) 4"
    by (simp_all add: search_loop_Some_iff)
  from ne have "last (search_sigmas price m n s) \<in> set (search_sigmas price m n s)"
    by simp
  with assms(1) have "0 < last (search_sigmas price m n s)"
    by (rule search_sigmas_positive)
  then show ?thesis
    unfolding v by (intro py_round_nonneg) simp
qed

lemma max_iterations_pos: "0 < max_iterations"
  by (simp add: max_iterations_def)

text \<open>The two ways \<open>implied_volatility\<close> can end, by the strike alone.\<close>

lemma implied_volatility_raises:
  "K = 0 \<Longrightarrow> implied_volatility m_call m_put S K T r s = Inl ZeroDivisionError"
proof -
  assume "K = 0"
  then have c: "BS_CALL_float S K T r s = Inl ZeroDivisionError"
    by (simp add: BS_CALL_float_raises)
  obtain n where n: "max_iterations = Suc n"
    using max_iterations_pos by (cases max_iterations) simp_all
  have "search_loop (BS_CALL_float S K T r) m_call max_iterations s = Inl ZeroDivisionError"
    unfolding n by (simp add: c)
  then show ?thesis
    by (simp add: implied_volatility_def)
qed

lemma implied_volatility_returns:
  assumes "K \<noteq> 0"
  shows "\<exists>call_vol put_vol.
     search_loop (BS_CALL_float S K T r) m_call max_iterations s = Inr call_vol \<and>
     search_loop (BS_PUT_float S K T r) m_put max_iterations s = Inr put_vol \<and>
     implied_volatility m_call m_put S K T r s = Inr (call_vol, put_vol)"
proof -
  from search_loop_returns [of "BS_CALL_float S K T r"] BS_CALL_float_returns [OF assms]
  obtain cv
    where cv: "search_loop (BS_CALL_float S K T r) m_call max_iterations s = Inr cv" by blast
  from search_loop_returns [of "BS_PUT_float S K T r"] BS_PUT_float_returns [OF assms]
  obtain pv
    where pv: "search_loop (BS_PUT_float S K T r) m_put max_iterations s = Inr pv" by blast
  show ?thesis
    by (simp add: implied_volatility_def cv pv)
qed

lemma implied_volatility_InrD:
  "implied_volatility m_call m_put S K T r s = Inr (cv, pv) \<Longrightarrow>
     search_loop (BS_CALL_float S K T r) m_call max_iterations s = Inr cv \<and>
     search_loop (BS_PUT_float S K T r) m_put max_iterations s = Inr pv"
  unfolding implied_volatility_def
  by (cases "search_loop (BS_CALL_float S K T r) m_call max_iterations s";
      cases "search_loop (BS_PUT_float S K T r) m_put max_iterations s") simp_all

text \<open>
  Two runs outside the regular domain of the pricer. With \<open>S = 0\<close> the call price is
  \<open>0\<close> and the put price \<open>K * exp (- r T)\<close> at every \<open>sigma\<close>: both legs use up their
  iterations. At expiry, \<open>T = 0\<close>, in
  the money, the call price is \<open>S - K\<close> and the put price \<open>0\<close>: with these as market
  prices both legs accept the first guess.
\<close>

lemma implied_volatility_at_expiry:
  "implied_volatility 10 0 110 100 0 (1 / 20) (1 / 5) = Inr (Some (1 / 5), Some (1 / 5))"
proof -
  have ln: "0 < ln (11 / 10 :: real)"
    by simp
  have d: "d1_special 110 100 0 (1 / 20) (1 / 5) = PlusInf"
    using ln by (simp add: d1_special_def Let_def)
  have c: "BS_CALL_float 110 100 0 (1 / 20) (1 / 5) = Inr (Num 10)"
    by (simp add: BS_CALL_float_def BS_CALL_def BS_CALL_special_def d)
  have p: "BS_PUT_float 110 100 0 (1 / 20) (1 / 5) = Inr (Num 0)"
    by (simp add: BS_PUT_float_def BS_PUT_def BS_PUT_special_def d)
  have r: "py_round (1 / 5) 4 = 1 / 5"
    by (simp add: py_round_def round_half_even_def)
  have m: "max_iterations = Suc 99"
    by (simp add: max_iterations_def)
  show ?thesis
    unfolding implied_volatility_def m search_loop.simps c p
    by (simp add: within_tolerance_def tolerance_def r)
qed

subsection \<open>Parameter checks and the search loop\<close>

text \<open>
  C1, as the code has it: \<open>BS_CALL\<close> and \<open>BS_PUT\<close> check no parameter and never raise
  \<open>InvalidParameterError\<close>. With \<open>K = 0\<close> the division \<open>S/K\<close> raises
  \<open>ZeroDivisionError\<close>; with \<open>K \<noteq> 0\<close> and \<open>S/K \<le> 0\<close>, \<open>T \<le> 0\<close> or \<open>sigma = 0\<close> numpy
  goes on with an infinity or a NaN and nothing is raised; in every other case, a negative
  \<open>sigma\<close> and a negative \<open>S\<close> with a negative \<open>K\<close> included, the value of the formula is
  returned.
\<close>

theorem pricer_checks_no_parameter:
  "BS_CALL S K T r sigma \<noteq> Raises InvalidParameterError \<and>
   BS_PUT S K T r sigma \<noteq> Raises InvalidParameterError \<and>
   (BS_CALL S K T r sigma = Raises ZeroDivisionError \<longleftrightarrow> K = 0) \<and>
   (BS_PUT S K T r sigma = Raises ZeroDivisionError \<longleftrightarrow> K = 0) \<and>
   (BS_CALL S K T r sigma = Special \<longleftrightarrow> K \<noteq> 0 \<and> (S / K \<le> 0 \<or> T \<le> 0 \<or> sigma = 0)) \<and>
   (BS_PUT S K T r sigma = Special \<longleftrightarrow> K \<noteq> 0 \<and> (S / K \<le> 0 \<or> T \<le> 0 \<or> sigma = 0)) \<and>
   (BS_CALL S K T r sigma = Returns (spec_price_call S K T r sigma)
      \<longleftrightarrow> K \<noteq> 0 \<and> 0 < S / K \<and> 0 < T \<and> sigma \<noteq> 0) \<and>
   (BS_PUT S K T r sigma = Returns (spec_price_put S K T r sigma)
      \<longleftrightarrow> K \<noteq> 0 \<and> 0 < S / K \<and> 0 < T \<and> sigma \<noteq> 0)"
proof -
  have c: "BS_CALL S K T r sigma = Returns (spec_price_call S K T r sigma)
      \<longleftrightarrow> K \<noteq> 0 \<and> 0 < S / K \<and> 0 < T \<and> sigma \<noteq> 0"
    using BS_CALL_value [of K S T sigma r] BS_CALL_returnsD [of S K T r sigma]
    by blast
  have p: "BS_PUT S K T r sigma = Returns (spec_price_put S K T r sigma)
      \<longleftrightarrow> K \<noteq> 0 \<and> 0 < S / K \<and> 0 < T \<and> sigma \<noteq> 0"
    using BS_PUT_value [of K S T sigma r] BS_PUT_returnsD [of S K T r sigma]
    by blast
  show ?thesis
    unfolding c p BS_CALL_raises BS_PUT_raises BS_CALL_special BS_PUT_special
    by simp
qed

text \<open>
  C1 fails as stated: with \<open>sigma = -1\<close> (and \<open>S = K = 100\<close>, \<open>T = 1\<close>, \<open>r = 0\<close>) both
  pricers return a number, a negative price, and raise nothing.
\<close>

theorem pricer_negative_sigma_returns:
  "BS_CALL 100 100 1 0 (- 1) = Returns (100 * Phi (- (1 / 2)) - 100 * Phi (1 / 2)) \<and>
   BS_CALL 100 100 1 0 (- 1) \<noteq> Raises InvalidParameterError \<and>
   BS_PUT 100 100 1 0 (- 1) = Returns (100 * Phi (- (1 / 2)) - 100 * Phi (1 / 2)) \<and>
   BS_PUT 100 100 1 0 (- 1) \<noteq> Raises InvalidParameterError"
  by (simp add: BS_CALL_def BS_PUT_def Let_def)


text \<open>
  C3: for every input each leg of \<open>implied_volatility\<close> performs at most 100 search
  iterations. Whenever the pricer does not raise, that is for every input with
  \<open>K \<noteq> 0\<close>, also where it computes with \<open>nan\<close> or an infinity, both legs and the
  function return, and the result of a leg is \<open>None\<close> exactly when no iterate of that leg
  satisfied the tolerance: a search that does not converge ends with \<open>None\<close> and never
  with an exception. The one exception that \<open>implied_volatility\<close> can raise is the
  \<open>ZeroDivisionError\<close> of the pricer itself at \<open>K = 0\<close>.
\<close>

theorem implied_volatility_budget:
  "length (search_sigmas (BS_CALL_float S K T r) m_call max_iterations initial_sigma) \<le> 100 \<and>
   length (search_sigmas (BS_PUT_float S K T r) m_put max_iterations initial_sigma) \<le> 100 \<and>
   (\<forall>e. implied_volatility m_call m_put S K T r initial_sigma = Inl e \<longrightarrow>
      K = 0 \<and> e = ZeroDivisionError) \<and>
   (K \<noteq> 0 \<longrightarrow>
      (\<exists>call_vol put_vol.
         search_loop (BS_CALL_float S K T r) m_call max_iterations initial_sigma = Inr call_vol \<and>
         search_loop (BS_PUT_float S K T r) m_put max_iterations initial_sigma = Inr put_vol \<and>
         implied_volatility m_call m_put S K T r initial_sigma = Inr (call_vol, put_vol) \<and>
         (call_vol = None \<longleftrightarrow>
            (\<forall>x \<in> set (search_sigmas (BS_CALL_float S K T r) m_call max_iterations initial_sigma).
               \<forall>e. BS_CALL_float S K T r x = Inr e \<longrightarrow> \<not> within_tolerance e m_call)) \<and>
         (put_vol = None \<longleftrightarrow>
            (\<forall>x \<in> set (search_sigmas (BS_PUT_float S K T r) m_put max_iterations initial_sigma).
               \<forall>e. BS_PUT_float S K T r x = Inr e \<longrightarrow> \<not> within_tolerance e m_put))))"
proof (intro conjI allI impI)
  show "length (search_sigmas (BS_CALL_float S K T r) m_call max_iterations initial_sigma) \<le> 100"
    using search_sigmas_length [of "BS_CALL_float S K T r" m_call max_iterations initial_sigma]
    by (simp add: max_iterations_def)
  show "length (search_sigmas (BS_PUT_float S K T r) m_put max_iterations initial_sigma) \<le> 100"
    using search_sigmas_length [of "BS_PUT_float S K T r" m_put max_iterations initial_sigma]
    by (simp add: max_iterations_def)
  {
    fix e
    assume raised: "implied_volatility m_call m_put S K T r initial_sigma = Inl e"
    have k: "K = 0"
    proof (rule ccontr)
      assume "K \<noteq> 0"
      from implied_volatility_returns [OF this, of S T r m_call initial_sigma m_put] raised
      show False by auto
    qed
    then show "K = 0" .
    from k raised show "e = ZeroDivisionError"
      by (simp add: implied_volatility_raises)
  }
  assume K: "K \<noteq> 0"
  from implied_volatility_returns [OF K, of S T r m_call initial_sigma m_put]
  obtain cv pv
    where cv: "search_loop (BS_CALL_float S K T r) m_call max_iterations initial_sigma = Inr cv"
      and pv: "search_loop (BS_PUT_float S K T r) m_put max_iterations initial_sigma = Inr pv"
      and iv: "implied_volatility m_call m_put S K T r initial_sigma = Inr (cv, pv)"
    by blast
  have c: "cv = None \<longleftrightarrow>
      (\<forall>x \<in> set (search_sigmas (BS_CALL_float S K T r) m_call max_iterations initial_sigma).
         \<forall>e. BS_CALL_float S K T r x = Inr e \<longrightarrow> \<not> within_tolerance e m_call)"
    using search_loop_None_total [of "BS_CALL_float S K T r" m_call max_iterations initial_sigma]
      BS_CALL_float_returns [OF K] cv by simp
  have p: "pv = None \<longleftrightarrow>
      (\<forall>x \<in> set (search_sigmas (BS_PUT_float S K T r) m_put max_iterations initial_sigma).
         \<forall>e. BS_PUT_float S K T r x = Inr e \<longrightarrow> \<not> within_tolerance e m_put)"
    using search_loop_None_total [of "BS_PUT_float S K T r" m_put max_iterations initial_sigma]
      BS_PUT_float_returns [OF K] pv by simp
  show "\<exists>call_vol put_vol.
         search_loop (BS_CALL_float S K T r) m_call max_iterations initial_sigma = Inr call_vol \<and>
         search_loop (BS_PUT_float S K T r) m_put max_iterations initial_sigma = Inr put_vol \<and>
         implied_volatility m_call m_put S K T r initial_sigma = Inr (call_vol, put_vol) \<and>
         (call_vol = None \<longleftrightarrow>
            (\<forall>x \<in> set (search_sigmas (BS_CALL_float S K T r) m_call max_iterations initial_sigma).
               \<forall>e. BS_CALL_float S K T r x = Inr e \<longrightarrow> \<not> within_tolerance e m_call)) \<and>
         (put_vol = None \<longleftrightarrow>
            (\<forall>x \<in> set (search_sigmas (BS_PUT_float S K T r) m_put max_iterations initial_sigma).
               \<forall>e. BS_PUT_float S K T r x = Inr e \<longrightarrow> \<not> within_tolerance e m_put))"
    using cv pv iv c p by blast
qed

lemma zero_spot_call_far:
  "BS_CALL_float 0 100 1 (1 / 20) x = Inr e \<Longrightarrow> \<not> within_tolerance e 10"
proof -
  assume a: "BS_CALL_float 0 100 1 (1 / 20) x = Inr e"
  have "e = Num 0 \<or> e = Num (- (100 * exp (- (1 / 20))))"
    using a by (cases "x < 0")
      (simp_all add: BS_CALL_float_def BS_CALL_def BS_CALL_special_def d1_special_def)
  moreover have "- (100 * exp (- (1 / 20))) \<le> (0 :: real)"
    by simp
  ultimately obtain v where v: "e = Num v" "v \<le> 0"
    by blast
  from v(2) have "\<not> \<bar>v - 10\<bar> < 1 / 100"
    by linarith
  then show ?thesis
    by (simp add: v(1) within_tolerance_def tolerance_def)
qed

lemma zero_spot_put_far:
  "BS_PUT_float 0 100 1 (1 / 20) x = Inr e \<Longrightarrow> \<not> within_tolerance e 5"
proof -
  assume a: "BS_PUT_float 0 100 1 (1 / 20) x = Inr e"
  have "e = Num 0 \<or> e = Num (100 * exp (- (1 / 20)))"
    using a by (cases "x < 0")
      (simp_all add: BS_PUT_float_def BS_PUT_def BS_PUT_special_def d1_special_def)
  moreover have "1 + - (1 / 20) \<le> exp (- (1 / 20 :: real))"
    by (rule exp_ge_add_one_self)
  then have "(95 :: real) \<le> 100 * exp (- (1 / 20))"
    by simp
  ultimately obtain v where v: "e = Num v" "v = 0 \<or> 95 \<le> v"
    by blast
  from v(2) have "\<not> \<bar>v - 5\<bar> < 1 / 100"
    by linarith
  then show ?thesis
    by (simp add: v(1) within_tolerance_def tolerance_def)
qed

theorem implied_volatility_budget_witness:
  "length (search_sigmas (BS_CALL_float 0 100 1 (1 / 20)) 10 max_iterations (1 / 5)) \<le> 100 \<and>
   implied_volatility 10 5 0 100 1 (1 / 20) (1 / 5) = Inr (None, None)"
proof -
  note b = implied_volatility_budget [where K = 100 and S = 0 and T = 1 and r = "1 / 20"
      and initial_sigma = "1 / 5" and m_call = 10 and m_put = 5]
  from b have len:
    "length (search_sigmas (BS_CALL_float 0 100 1 (1 / 20)) 10 max_iterations (1 / 5)) \<le> 100"
    by (elim conjE)
  have "(100 :: real) \<noteq> 0"
    by simp
  with b obtain cv pv
    where iv: "implied_volatility 10 5 0 100 1 (1 / 20) (1 / 5) = Inr (cv, pv)"
      and c: "cv = None \<longleftrightarrow>
        (\<forall>x \<in> set (search_sigmas (BS_CALL_float 0 100 1 (1 / 20)) 10 max_iterations (1 / 5)).
           \<forall>e. BS_CALL_float 0 100 1 (1 / 20) x = Inr e \<longrightarrow> \<not> within_tolerance e 10)"
      and p: "pv = None \<longleftrightarrow>
        (\<forall>x \<in> set (search_sigmas (BS_PUT_float 0 100 1 (1 / 20)) 5 max_iterations (1 / 5)).
           \<forall>e. BS_PUT_float 0 100 1 (1 / 20) x = Inr e \<longrightarrow> \<not> within_tolerance e 5)"
    by blast
  from c zero_spot_call_far have "cv = None" by blast
  moreover from p zero_spot_put_far have "pv = None" by blast
  ultimately show ?thesis
    using iv len by simp
qed

text \<open>
  C4: for \<open>S > 0\<close>, \<open>K > 0\<close>, \<open>T > 0\<close> and \<open>sigma > 0\<close>, \<open>BS_CALL\<close> returns
  \<open>S * Phi d1 - K * exp (- r T) * Phi d2\<close> with
  \<open>d1 = (ln (S/K) + (r + sigma^2 / 2) * T) / (sigma * sqrt T)\<close> and
  \<open>d2 = d1 - sigma * sqrt T\<close>.
\<close>

theorem BS_CALL_formula:
  "0 < S \<Longrightarrow> 0 < K \<Longrightarrow> 0 < T \<Longrightarrow> 0 < sigma \<Longrightarrow>
   d1 = (ln (S / K) + (r + sigma\<^sup>2 / 2) * T) / (sigma * sqrt T) \<Longrightarrow>
   d2 = d1 - sigma * sqrt T \<Longrightarrow>
   BS_CALL S K T r sigma = Returns (S * Phi d1 - K * exp (- (r * T)) * Phi d2)"
  by (simp add: BS_CALL_value spec_price_call_def spec_d1_def spec_d2_def)

theorem BS_CALL_formula_witness:
  "BS_CALL 100 100 1 (1 / 20) (1 / 5) =
     Returns (100 * Phi (7 / 20) - 100 * exp (- (1 / 20)) * Phi (3 / 20))"
  using BS_CALL_formula [of 100 100 1 "1 / 5" "7 / 20" "1 / 20" "3 / 20"]
  by (simp add: power2_eq_square)

text \<open>
  C5: for \<open>S > 0\<close>, \<open>K > 0\<close>, \<open>T > 0\<close> and \<open>sigma > 0\<close>, \<open>BS_PUT\<close> returns
  \<open>K * exp (- r T) * Phi (- d2) - S * Phi (- d1)\<close>, with \<open>d1\<close> and \<open>d2\<close> as in the
  call case.
\<close>

theorem BS_PUT_formula:
  "0 < S \<Longrightarrow> 0 < K \<Longrightarrow> 0 < T \<Longrightarrow> 0 < sigma \<Longrightarrow>
   d1 = (ln (S / K) + (r + sigma\<^sup>2 / 2) * T) / (sigma * sqrt T) \<Longrightarrow>
   d2 = d1 - sigma * sqrt T \<Longrightarrow>
   BS_PUT S K T r sigma = Returns (K * exp (- (r * T)) * Phi (- d2) - S * Phi (- d1))"
  by (simp add: BS_PUT_value spec_price_put_def spec_d1_def spec_d2_def)

theorem BS_PUT_formula_witness:
  "BS_PUT 100 100 1 (1 / 20) (1 / 5) =
     Returns (100 * exp (- (1 / 20)) * Phi (- (3 / 20)) - 100 * Phi (- (7 / 20)))"
  using BS_PUT_formula [of 100 100 1 "1 / 5" "7 / 20" "1 / 20" "3 / 20"]
  by (simp add: power2_eq_square)

text \<open>
  C9: the call-leg result of \<open>implied_volatility\<close> is the same for any two market put
  prices, and the put-leg result is the same for any two market call prices.
\<close>

theorem legs_independent:
  "map_sum id fst (implied_volatility m_call m_put S K T r initial_sigma) =
     map_sum id fst (implied_volatility m_call m_put' S K T r initial_sigma) \<and>
   map_sum id snd (implied_volatility m_call m_put S K T r initial_sigma) =
     map_sum id snd (implied_volatility m_call' m_put S K T r initial_sigma)"
proof (cases "K = 0")
  case True
  then show ?thesis by (simp add: implied_volatility_raises)
next
  case False
  from implied_volatility_returns [OF False, of S T r m_call initial_sigma m_put]
    implied_volatility_returns [OF False, of S T r m_call initial_sigma m_put']
    implied_volatility_returns [OF False, of S T r m_call' initial_sigma m_put]
  show ?thesis by auto
qed

text \<open>
  C10: for \<open>initial_sigma > 0\<close> and any market prices, every volatility guess of both
  search loops is strictly positive, and so is the guess that each update produces from
  it; a volatility that \<open>implied_volatility\<close> returns is not negative.
\<close>

theorem sigma_guesses_positive:
  "0 < initial_sigma \<Longrightarrow>
   (\<forall>x \<in> set (search_sigmas (BS_CALL_float S K T r) m_call max_iterations initial_sigma).
      0 < x \<and> 0 < x - x * (5 / 100) \<and> 0 < x + x * (5 / 100)) \<and>
   (\<forall>x \<in> set (search_sigmas (BS_PUT_float S K T r) m_put max_iterations initial_sigma).
      0 < x \<and> 0 < x - x * (5 / 100) \<and> 0 < x + x * (5 / 100)) \<and>
   (\<forall>call_vol put_vol v.
      implied_volatility m_call m_put S K T r initial_sigma = Inr (call_vol, put_vol) \<longrightarrow>
      call_vol = Some v \<or> put_vol = Some v \<longrightarrow> 0 \<le> v)"
proof (intro conjI ballI allI impI)
  assume pos: "0 < initial_sigma"
  {
    fix x
    assume "x \<in> set (search_sigmas (BS_CALL_float S K T r) m_call max_iterations initial_sigma)"
    with pos have x: "0 < x" by (rule search_sigmas_positive)
    then show "0 < x" "0 < x - x * (5 / 100)" "0 < x + x * (5 / 100)" by simp_all
  }
  {
    fix x
    assume "x \<in> set (search_sigmas (BS_PUT_float S K T r) m_put max_iterations initial_sigma)"
    with pos have x: "0 < x" by (rule search_sigmas_positive)
    then show "0 < x" "0 < x - x * (5 / 100)" "0 < x + x * (5 / 100)" by simp_all
  }
  fix call_vol put_vol v
  assume "implied_volatility m_call m_put S K T r initial_sigma = Inr (call_vol, put_vol)"
  then have legs:
    "search_loop (BS_CALL_float S K T r) m_call max_iterations initial_sigma = Inr call_vol"
    "search_loop (BS_PUT_float S K T r) m_put max_iterations initial_sigma = Inr put_vol"
    by (simp_all add: implied_volatility_InrD)
  assume "call_vol = Some v \<or> put_vol = Some v"
  then show "0 \<le> v"
    using legs search_loop_nonneg [OF pos] by blast
qed

theorem sigma_guesses_positive_witness:
  "0 < (1 / 5 :: real) \<and>
   list_all (\<lambda>x. 0 < x)
     (search_sigmas (BS_CALL_float 100 100 1 (1 / 20)) 10 max_iterations (1 / 5))"
proof -
  have p: "0 < (1 / 5 :: real)" by simp
  from sigma_guesses_positive [OF p, where S = 100 and K = 100 and T = 1 and r = "1 / 20"
      and m_call = 10]
  show ?thesis
    by (simp add: list_all_iff)
qed

subsection \<open>Parity and prices out of reach\<close>

lemma spec_parity:
  "spec_price_call S K T r sigma - spec_price_put S K T r sigma = S - K * exp (- (r * T))"
  by (simp add: spec_price_call_def spec_price_put_def Phi_minus algebra_simps)

lemma spec_price_call_le:
  assumes "0 \<le> S" "0 \<le> K"
  shows "spec_price_call S K T r sigma \<le> S"
proof -
  have "S * Phi (spec_d1 S K T r sigma) \<le> S * 1"
    using assms(1) Phi_bounds by (intro mult_left_mono) simp_all
  moreover have "0 \<le> K * exp (- (r * T)) * Phi (spec_d2 S K T r sigma)"
    using assms(2) Phi_bounds by (intro mult_nonneg_nonneg) simp_all
  ultimately show ?thesis
    unfolding spec_price_call_def by linarith
qed

text \<open>
  C6: put-call parity. For \<open>S > 0\<close>, \<open>K > 0\<close>, \<open>T > 0\<close>, \<open>sigma > 0\<close> and any \<open>r\<close>, both
  pricers return, and the call price less the put price is \<open>S - K * exp (- r T)\<close>.
\<close>

theorem put_call_parity:
  "0 < S \<Longrightarrow> 0 < K \<Longrightarrow> 0 < T \<Longrightarrow> 0 < sigma \<Longrightarrow>
   \<exists>c p. BS_CALL S K T r sigma = Returns c \<and> BS_PUT S K T r sigma = Returns p \<and>
     c - p = S - K * exp (- (r * T))"
  using spec_parity [of S K T r sigma]
  by (simp add: BS_CALL_value BS_PUT_value)

theorem put_call_parity_witness:
  "\<exists>c p. BS_CALL 100 100 1 (1 / 20) (1 / 5) = Returns c \<and>
     BS_PUT 100 100 1 (1 / 20) (1 / 5) = Returns p \<and>
     c - p = 100 - 100 * exp (- (1 / 20))"
  using put_call_parity [of 100 100 1 "1 / 5" "1 / 20"] by simp

text \<open>
  C8: for \<open>S > 0\<close>, \<open>K > 0\<close>, \<open>T > 0\<close>, \<open>initial_sigma > 0\<close> and a market call price of
  at least \<open>S\<close> plus the tolerance, the call leg performs its 100 iterations and ends
  with \<open>None\<close>, and \<open>implied_volatility\<close> returns \<open>None\<close> for the call leg: it does not
  raise and returns no volatility, negative or other, for that leg.
\<close>

theorem unreachable_call_price_gives_None:
  "0 < S \<Longrightarrow> 0 < K \<Longrightarrow> 0 < T \<Longrightarrow> 0 < initial_sigma \<Longrightarrow> S + tolerance \<le> m_call \<Longrightarrow>
   search_loop (BS_CALL_float S K T r) m_call max_iterations initial_sigma = Inr None \<and>
   length (search_sigmas (BS_CALL_float S K T r) m_call max_iterations initial_sigma) = 100 \<and>
   (\<exists>put_vol. implied_volatility m_call m_put S K T r initial_sigma = Inr (None, put_vol))"
proof -
  assume S: "0 < S" and K: "0 < K" and T: "0 < T" and s: "0 < initial_sigma"
    and m: "S + tolerance \<le> m_call"
  have dom: "K \<noteq> 0" "0 < S / K" "0 < T"
    using S K T by simp_all
  have far: "\<not> within_tolerance e m_call"
    if "x \<in> set (search_sigmas (BS_CALL_float S K T r) m_call max_iterations initial_sigma)"
      and "BS_CALL_float S K T r x = Inr e" for x e
  proof -
    from s that(1) have "0 < x" by (rule search_sigmas_positive)
    then have "BS_CALL_float S K T r x = Inr (Num (spec_price_call S K T r x))"
      using dom by (intro BS_CALL_float_value) simp_all
    with that(2) have e: "e = Num (spec_price_call S K T r x)" by simp
    have "spec_price_call S K T r x \<le> S"
      using spec_price_call_le [of S K T r x] S K by simp
    with m have "\<not> \<bar>spec_price_call S K T r x - m_call\<bar> < tolerance"
      by linarith
    then show ?thesis
      by (simp add: e within_tolerance_def)
  qed
  have none: "search_loop (BS_CALL_float S K T r) m_call max_iterations initial_sigma = Inr None"
    using search_loop_None_total [of "BS_CALL_float S K T r" m_call max_iterations initial_sigma]
      BS_CALL_float_returns [OF dom(1)] far by blast
  then have len:
    "length (search_sigmas (BS_CALL_float S K T r) m_call max_iterations initial_sigma) = 100"
    by (simp add: search_loop_None_iff max_iterations_def)
  from implied_volatility_returns [OF dom(1), of S T r m_call initial_sigma m_put] none
  have "\<exists>put_vol. implied_volatility m_call m_put S K T r initial_sigma = Inr (None, put_vol)"
    by auto
  with none len show ?thesis by blast
qed

theorem unreachable_call_price_gives_None_witness:
  "search_loop (BS_CALL_float 100 100 1 (1 / 20)) 101 max_iterations (1 / 5) = Inr None \<and>
   (\<exists>put_vol. implied_volatility 101 5 100 100 1 (1 / 20) (1 / 5) = Inr (None, put_vol))"
proof -
  have "(100 :: real) + tolerance \<le> 101"
    by (simp add: tolerance_def)
  from unreachable_call_price_gives_None [OF _ _ _ _ this, of 100 1 "1 / 5" "1 / 20" 5]
  show ?thesis by simp
qed

subsection \<open>Monotonicity in the volatility\<close>

lemma DERIV_Phi_chain:
  "DERIV f x :> D \<Longrightarrow>
     DERIV (\<lambda>x. Phi (f x)) x :> exp (- ((f x)\<^sup>2) / 2) / sqrt (2 * pi) * D"
  by (rule DERIV_chain2 [OF DERIV_Phi])

lemma DERIV_spec_d1_ex:
  assumes "0 < T" "s \<noteq> 0"
  shows "\<exists>D. DERIV (spec_d1 S K T r) s :> D"
proof -
  have "sqrt T \<noteq> 0"
    using assms(1) by simp
  then have nz: "s * sqrt T \<noteq> 0"
    using assms(2) by simp
  have n: "DERIV (\<lambda>x. ln (S / K) + (r + x\<^sup>2 / 2) * T) s :> (0 + (0 + 2 * s / 2) * T)"
    by (auto intro!: derivative_eq_intros)
  have d: "DERIV (\<lambda>x. x * sqrt T) s :> sqrt T"
    by (auto intro!: derivative_eq_intros)
  from DERIV_divide [OF n d nz] show ?thesis
    unfolding spec_d1_def [abs_def] by blast
qed

lemma density_identity:
  assumes "0 < S" "0 < K" "0 < T" "s \<noteq> 0"
  shows "K * exp (- (r * T)) * exp (- ((spec_d2 S K T r s)\<^sup>2) / 2)
     = S * exp (- ((spec_d1 S K T r s)\<^sup>2) / 2)"
proof -
  define d where "d = spec_d1 S K T r s"
  define a where "a = s * sqrt T"
  have a_nz: "a \<noteq> 0"
    using assms(3,4) by (simp add: a_def)
  have a_sq: "a\<^sup>2 = s\<^sup>2 * T"
    using assms(3) by (simp add: a_def power_mult_distrib)
  have "d = (ln (S / K) + (r + s\<^sup>2 / 2) * T) / a"
    by (simp add: d_def a_def spec_d1_def)
  then have da: "d * a = ln (S / K) + (r + s\<^sup>2 / 2) * T"
    using a_nz by simp
  have "(d - a)\<^sup>2 = d\<^sup>2 - 2 * (d * a) + a\<^sup>2"
    by (simp add: power2_diff)
  also have "\<dots> = d\<^sup>2 - 2 * (ln (S / K) + r * T)"
    unfolding da a_sq by (simp add: algebra_simps)
  finally have "- ((d - a)\<^sup>2) / 2 = - (d\<^sup>2) / 2 + (ln (S / K) + r * T)"
    by simp
  then have "exp (- ((d - a)\<^sup>2) / 2) = exp (- (d\<^sup>2) / 2) * (exp (ln (S / K)) * exp (r * T))"
    by (simp only: exp_add)
  also have "exp (ln (S / K)) = S / K"
    using assms(1,2) by simp
  finally have e: "exp (- ((d - a)\<^sup>2) / 2) = exp (- (d\<^sup>2) / 2) * (S / K * exp (r * T))" .
  have "K * exp (- (r * T)) * (exp (- (d\<^sup>2) / 2) * (S / K * exp (r * T)))
      = S * exp (- (d\<^sup>2) / 2) * (exp (- (r * T)) * exp (r * T))"
    using assms(2) by simp
  also have "exp (- (r * T)) * exp (r * T) = 1"
    by (simp add: exp_minus)
  finally show ?thesis
    unfolding spec_d2_def e [unfolded d_def a_def] d_def by simp
qed

lemma DERIV_spec_price_call:
  assumes "0 < S" "0 < K" "0 < T" "s \<noteq> 0"
  shows "DERIV (spec_price_call S K T r) s
     :> S * (exp (- ((spec_d1 S K T r s)\<^sup>2) / 2) / sqrt (2 * pi)) * sqrt T"
proof -
  from DERIV_spec_d1_ex [OF assms(3,4)] obtain D
    where D: "DERIV (spec_d1 S K T r) s :> D" by blast
  have D2: "DERIV (spec_d2 S K T r) s :> D - sqrt T"
  proof -
    have "DERIV (\<lambda>x. x * sqrt T) s :> sqrt T"
      by (auto intro!: derivative_eq_intros)
    from DERIV_diff [OF D this] show ?thesis
      unfolding spec_d2_def [abs_def] .
  qed
  define p1 where "p1 = exp (- ((spec_d1 S K T r s)\<^sup>2) / 2) / sqrt (2 * pi)"
  define p2 where "p2 = exp (- ((spec_d2 S K T r s)\<^sup>2) / 2) / sqrt (2 * pi)"
  define ke where "ke = K * exp (- (r * T))"
  have c: "DERIV (\<lambda>x. S * Phi (spec_d1 S K T r x)) s :> S * (p1 * D)"
    unfolding p1_def by (rule DERIV_cmult) (rule DERIV_Phi_chain [OF D])
  have p: "DERIV (\<lambda>x. ke * Phi (spec_d2 S K T r x)) s :> ke * (p2 * (D - sqrt T))"
    unfolding p2_def by (rule DERIV_cmult) (rule DERIV_Phi_chain [OF D2])
  have total: "DERIV (spec_price_call S K T r) s :> S * (p1 * D) - ke * (p2 * (D - sqrt T))"
    using DERIV_diff [OF c p] unfolding spec_price_call_def [abs_def] ke_def .
  have id: "ke * p2 = S * p1"
    unfolding p1_def p2_def ke_def times_divide_eq_right density_identity [OF assms] ..
  have "S * (p1 * D) - ke * (p2 * (D - sqrt T)) = S * p1 * D - ke * p2 * (D - sqrt T)"
    by (simp only: mult.assoc)
  also have "\<dots> = S * p1 * sqrt T"
    unfolding id by (simp only: right_diff_distrib)
  finally show ?thesis
    using total unfolding p1_def by simp
qed

lemma spec_price_call_mono:
  assumes "0 < S" "0 < K" "0 < T" "0 < s1" "s1 \<le> s2"
  shows "spec_price_call S K T r s1 \<le> spec_price_call S K T r s2"
proof (rule DERIV_nonneg_imp_nondecreasing [OF assms(5)])
  fix x
  assume "s1 \<le> x" "x \<le> s2"
  with assms(4) have "x \<noteq> 0" by simp
  from DERIV_spec_price_call [OF assms(1,2,3) this, of r]
  have "DERIV (spec_price_call S K T r) x
      :> S * (exp (- ((spec_d1 S K T r x)\<^sup>2) / 2) / sqrt (2 * pi)) * sqrt T" .
  moreover have "0 \<le> S * (exp (- ((spec_d1 S K T r x)\<^sup>2) / 2) / sqrt (2 * pi)) * sqrt T"
    using assms(1,3) by (intro mult_nonneg_nonneg divide_nonneg_nonneg) simp_all
  ultimately show "\<exists>y. DERIV (spec_price_call S K T r) x :> y \<and> 0 \<le> y"
    by blast
qed

lemma spec_price_put_mono:
  assumes "0 < S" "0 < K" "0 < T" "0 < s1" "s1 \<le> s2"
  shows "spec_price_put S K T r s1 \<le> spec_price_put S K T r s2"
  using spec_price_call_mono [OF assms, of r] spec_parity [of S K T r s1]
    spec_parity [of S K T r s2]
  by linarith

text \<open>
  C7: monotonicity in the volatility. For fixed \<open>S > 0\<close>, \<open>K > 0\<close>, \<open>T > 0\<close> and \<open>r\<close>
  and for \<open>0 < sigma1 \<le> sigma2\<close>, both pricers return at both volatilities, and neither
  the call price nor the put price at \<open>sigma1\<close> exceeds the one at \<open>sigma2\<close>.
\<close>

theorem price_monotone_in_sigma:
  "0 < S \<Longrightarrow> 0 < K \<Longrightarrow> 0 < T \<Longrightarrow> 0 < sigma1 \<Longrightarrow> sigma1 \<le> sigma2 \<Longrightarrow>
   \<exists>c1 c2 p1 p2.
     BS_CALL S K T r sigma1 = Returns c1 \<and> BS_CALL S K T r sigma2 = Returns c2 \<and>
     BS_PUT S K T r sigma1 = Returns p1 \<and> BS_PUT S K T r sigma2 = Returns p2 \<and>
     c1 \<le> c2 \<and> p1 \<le> p2"
  using spec_price_call_mono [of S K T sigma1 sigma2 r]
    spec_price_put_mono [of S K T sigma1 sigma2 r]
  by (simp add: BS_CALL_value BS_PUT_value)

theorem price_monotone_in_sigma_witness:
  "\<exists>c1 c2 p1 p2.
     BS_CALL 100 100 1 (1 / 20) (1 / 5) = Returns c1 \<and>
     BS_CALL 100 100 1 (1 / 20) (3 / 10) = Returns c2 \<and>
     BS_PUT 100 100 1 (1 / 20) (1 / 5) = Returns p1 \<and>
     BS_PUT 100 100 1 (1 / 20) (3 / 10) = Returns p2 \<and>
     c1 \<le> c2 \<and> p1 \<le> p2"
  using price_monotone_in_sigma [of 100 100 1 "1 / 5" "3 / 10" "1 / 20"] by simp

end
